theory Spec2Isabelle
  imports Complex_Main
begin

section \<open>JavaScript strings and the builtins the sources call\<close>

text \<open>
  A JavaScript string is a sequence of code units.  The model takes \<^typ>\<open>string\<close>, whose
  characters are the 256 code units \<open>0x00..0xFF\<close> (the Latin-1 range), and gives each builtin
  the meaning it has on that range:
  \<^item> \<open>\s\<close> and \<open>trim()\<close> see TAB, LF, VT, FF, CR, SPACE and NO-BREAK SPACE as white space;
  \<^item> \<open>\w\<close> is \<open>[A-Za-z0-9_]\<close>, and \<open>\W\<close> is every other code unit;
  \<^item> \<open>toLowerCase()\<close> adds \<open>0x20\<close> to \<open>A..Z\<close> and to \<open>0xC0..0xDE\<close> except \<open>0xD7\<close>.
\<close>

definition isSpace :: "char \<Rightarrow> bool" where
  "isSpace c = (c \<in> set [CHR 0x09, CHR 0x0A, CHR 0x0B, CHR 0x0C, CHR 0x0D, CHR 0x20, CHR 0xA0])"

definition isWordChar :: "char \<Rightarrow> bool" where
  "isWordChar c = (let n = (of_char c :: nat) in
     (48 \<le> n \<and> n \<le> 57) \<or> (65 \<le> n \<and> n \<le> 90) \<or> n = 95 \<or> (97 \<le> n \<and> n \<le> 122))"

definition isNonWordChar :: "char \<Rightarrow> bool" where
  "isNonWordChar c = (\<not> isWordChar c)"

definition lowerChar :: "char \<Rightarrow> char" where
  "lowerChar c = (let n = (of_char c :: nat) in
     if (65 \<le> n \<and> n \<le> 90) \<or> (192 \<le> n \<and> n \<le> 222 \<and> n \<noteq> 215)
     then char_of (n + 32) else c)"

definition toLowerCase :: "string \<Rightarrow> string" where
  "toLowerCase s = map lowerChar s"

definition trim :: "string \<Rightarrow> string" where
  "trim s = rev (dropWhile isSpace (rev (dropWhile isSpace s)))"

text \<open>
  \<open>s.split(/[class]+/)\<close>: every maximal run of characters of the class is one separator.
  A run at the start or at the end leaves an empty string there, and the empty input
  gives the one-element list holding the empty string.
\<close>

fun consHead :: "char \<Rightarrow> string list \<Rightarrow> string list" where
  "consHead x [] = [[x]]"
| "consHead x (w # ws) = (x # w) # ws"

function splitRuns :: "(char \<Rightarrow> bool) \<Rightarrow> string \<Rightarrow> string list" where
  "splitRuns P [] = [[]]"
| "splitRuns P (x # xs) =
     (if P x then [] # splitRuns P (dropWhile P xs) else consHead x (splitRuns P xs))"
  by pat_completeness auto
termination
  by (relation "measure (\<lambda>(P, s). length s)") (auto simp add: length_dropWhile_le less_Suc_eq_le)

text \<open>\<open>s.split(c)\<close> for a one-character separator \<open>c\<close>.\<close>

fun splitChar :: "char \<Rightarrow> string \<Rightarrow> string list" where
  "splitChar c [] = [[]]"
| "splitChar c (x # xs) = (if x = c then [] # splitChar c xs else consHead x (splitChar c xs))"

text \<open>
  \<open>Math.round\<close> rounds to the nearest integer, a half towards plus infinity.  The quotient
  it rounds is taken in exact rational arithmetic.
\<close>

definition js_round :: "rat \<Rightarrow> int" where
  "js_round x = \<lfloor>x + 1 / 2\<rfloor>"

section \<open>The rule-based sentiment heuristic (textAnalysisService.js)\<close>

text \<open>The object returned by analyzeSentiment; \<open>method_name\<close> is its field \<open>method\<close>.\<close>

record sentiment_result =
  label :: string
  confidence :: int
  method_name :: string

definition positiveWords :: "string list" where
  "positiveWords = [''good'', ''great'', ''excellent'', ''amazing'', ''wonderful'', ''fantastic'',
     ''awesome'', ''love'', ''like'', ''happy'', ''pleased'', ''satisfied'', ''perfect'',
     ''brilliant'', ''outstanding'', ''superb'', ''marvelous'', ''terrific'', ''fabulous'',
     ''incredible'']"

definition negativeWords :: "string list" where
  "negativeWords = [''bad'', ''terrible'', ''awful'', ''horrible'', ''hate'', ''dislike'', ''sad'',
     ''angry'', ''frustrated'', ''disappointed'', ''disgusted'', ''annoyed'', ''furious'',
     ''upset'', ''depressed'', ''miserable'', ''pathetic'', ''useless'', ''worthless'',
     ''dreadful'']"

text \<open>The \<open>forEach\<close> over the words, carrying \<open>(positiveScore, negativeScore)\<close>.\<close>

fun countScores :: "string list \<Rightarrow> nat \<times> nat \<Rightarrow> nat \<times> nat" where
  "countScores [] (p, n) = (p, n)"
| "countScores (w # ws) (p, n) =
     countScores ws (if w \<in> set positiveWords then p + 1 else p,
                     if w \<in> set negativeWords then n + 1 else n)"

definition sentimentWords :: "string \<Rightarrow> string list" where
  "sentimentWords text = splitRuns isNonWordChar (toLowerCase text)"

definition analyzeSentiment :: "string \<Rightarrow> sentiment_result" where
  "analyzeSentiment text =
     (let words = sentimentWords text;
          (positiveScore, negativeScore) = countScores words (0, 0);
          totalScore = positiveScore + negativeScore
      in if totalScore = 0
         then \<lparr>label = ''NEUTRAL'', confidence = 50, method_name = ''Rule-based Analysis''\<rparr>
         else if positiveScore > negativeScore
         then (let confidence = js_round (of_nat positiveScore / of_nat totalScore * 100)
               in \<lparr>label = ''POSITIVE'', confidence = max confidence 60,
                   method_name = ''Rule-based Analysis''\<rparr>)
         else if negativeScore > positiveScore
         then (let confidence = js_round (of_nat negativeScore / of_nat totalScore * 100)
               in \<lparr>label = ''NEGATIVE'', confidence = max confidence 60,
                   method_name = ''Rule-based Analysis''\<rparr>)
         else \<lparr>label = ''NEUTRAL'', confidence = 50, method_name = ''Rule-based Analysis''\<rparr>)"

text \<open>
  The counts as the specification words them: the number of tokens of the lowercased,
  split text that occur in a word list.
\<close>

definition keywordCount :: "string list \<Rightarrow> string \<Rightarrow> nat" where
  "keywordCount wordList text = length (filter (\<lambda>w. w \<in> set wordList) (sentimentWords text))"

definition majorityConfidence :: "nat \<Rightarrow> nat \<Rightarrow> int" where
  "majorityConfidence majority minority =
     max 60 (js_round (100 * of_nat majority / (of_nat majority + of_nat minority)))"

section \<open>Text statistics (analyzeText)\<close>

datatype error = EmptyTextError | CsvEmptyError

fun errorMessage :: "error \<Rightarrow> string" where
  "errorMessage EmptyTextError = ''Please enter some text to analyze''"
| "errorMessage CsvEmptyError = ''CSV file is empty''"

text \<open>
  A JavaScript number that a division may produce: a finite value (kept as an exact
  rational), \<open>Infinity\<close>, or \<open>NaN\<close>.  Dividing a count by the count zero gives \<open>Infinity\<close>,
  or \<open>NaN\<close> when the dividend is zero as well; no exception is raised.
\<close>

datatype jsnumber = Finite rat | PosInfinity | NaN

definition js_divide :: "nat \<Rightarrow> nat \<Rightarrow> jsnumber" where
  "js_divide a b = (if b = 0 then (if a = 0 then NaN else PosInfinity)
                    else Finite (of_nat a / of_nat b))"

text \<open>\<open>Math.round(x * 10) / 10\<close>; \<open>Infinity\<close> and \<open>NaN\<close> pass through each of the three steps.\<close>

fun roundToTenth :: "jsnumber \<Rightarrow> jsnumber" where
  "roundToTenth (Finite q) = Finite (of_int (js_round (q * 10)) / 10)"
| "roundToTenth PosInfinity = PosInfinity"
| "roundToTenth NaN = NaN"

fun isFinite :: "jsnumber \<Rightarrow> bool" where
  "isFinite (Finite q) = True"
| "isFinite PosInfinity = False"
| "isFinite NaN = False"

definition isSentenceEnd :: "char \<Rightarrow> bool" where
  "isSentenceEnd c = (c \<in> set ''.!?'')"

text \<open>
  \<open>text.split(/\n\s*\n/)\<close>: a separator starts at a line feed and, the \<open>\s*\<close> being greedy,
  ends at the last line feed of the white space that follows it.
\<close>

function splitParagraphs :: "string \<Rightarrow> string list" where
  "splitParagraphs [] = [[]]"
| "splitParagraphs (x # xs) =
     (if x = CHR 0x0A \<and> CHR 0x0A \<in> set (takeWhile isSpace xs)
      then [] # splitParagraphs (rev (takeWhile (\<lambda>c. c \<noteq> CHR 0x0A) (rev (takeWhile isSpace xs)))
                                   @ dropWhile isSpace xs)
      else consHead x (splitParagraphs xs))"
  by pat_completeness auto
termination
proof (relation "measure length", goal_cases)
  case 1
  show ?case by simp
next
  case (2 x xs)
  have "length (takeWhile (\<lambda>c. c \<noteq> CHR 0x0A) (rev (takeWhile isSpace xs)))
          \<le> length (takeWhile isSpace xs)"
    using length_takeWhile_le[of "\<lambda>c. c \<noteq> CHR 0x0A" "rev (takeWhile isSpace xs)"] by simp
  moreover have "length (takeWhile isSpace xs) + length (dropWhile isSpace xs) = length xs"
  proof -
    have "length (takeWhile isSpace xs @ dropWhile isSpace xs) = length xs"
      by (simp only: takeWhile_dropWhile_id)
    then show ?thesis by (simp only: length_append)
  qed
  ultimately show ?case by simp
next
  case (3 x xs)
  show ?case by simp
qed

record text_analysis =
  wordCount :: nat
  characterCount :: nat
  characterCountNoSpaces :: nat
  sentenceCount :: nat
  paragraphCount :: nat
  averageWordsPerSentence :: jsnumber
  sentiment :: sentiment_result

definition analyzeText :: "string \<Rightarrow> error + text_analysis" where
  "analyzeText text =
     (if trim text = [] then Inl EmptyTextError
      else
        let words = splitRuns isSpace (trim text);
            characters = length text;
            charactersNoSpaces = length (filter (\<lambda>c. \<not> isSpace c) text);
            sentences = length (filter (\<lambda>s. length (trim s) > 0) (splitRuns isSentenceEnd text));
            paragraphs = length (filter (\<lambda>p. length (trim p) > 0) (splitParagraphs text));
            sentimentResult = analyzeSentiment text
        in Inr \<lparr>wordCount = length words,
                characterCount = characters,
                characterCountNoSpaces = charactersNoSpaces,
                sentenceCount = sentences,
                paragraphCount = paragraphs,
                averageWordsPerSentence = roundToTenth (js_divide (length words) sentences),
                sentiment = sentimentResult\<rparr>)"

section \<open>The CSV sniffer (parseCSV)\<close>

text \<open>\<open>s.includes(sub)\<close>: \<open>sub\<close> occurs in \<open>s\<close> as a contiguous substring.\<close>

fun includesStr :: "string \<Rightarrow> string \<Rightarrow> bool" where
  "includesStr [] sub = (sub = [])"
| "includesStr (x # xs) sub = (take (length sub) (x # xs) = sub \<or> includesStr xs sub)"

text \<open>\<open>v.replace(/"/g, '')\<close> removes every double quote (code unit \<open>0x22\<close>).\<close>

definition stripQuotes :: "string \<Rightarrow> string" where
  "stripQuotes v = filter (\<lambda>c. c \<noteq> CHR 0x22) v"

text \<open>\<open>line.split(',').map(v => v.trim().replace(/"/g, ''))\<close>\<close>

definition csvCells :: "string \<Rightarrow> string list" where
  "csvCells line = map (\<lambda>v. stripQuotes (trim v)) (splitChar (CHR 0x2C) line)"

definition headerIndicators :: "string list" where
  "headerIndicators = [''text'', ''content'', ''message'', ''sentence'', ''comment'', ''review'',
     ''feedback'', ''data'']"

definition someHeaderIndicator :: "string \<Rightarrow> bool" where
  "someHeaderIndicator firstLine =
     (let firstLineLower = toLowerCase firstLine
      in list_ex (\<lambda>indicator. includesStr firstLineLower indicator) headerIndicators)"

text \<open>The predicate handed to \<open>headers.findIndex\<close>.\<close>

definition isTextHeader :: "string \<Rightarrow> bool" where
  "isTextHeader h =
     (toLowerCase h = ''text'' \<or> toLowerCase h = ''content'' \<or> toLowerCase h = ''message'' \<or>
      toLowerCase h = ''sentence'' \<or> toLowerCase h = ''comment'' \<or> toLowerCase h = ''review'' \<or>
      toLowerCase h = ''feedback'' \<or> toLowerCase h = ''data'')"

text \<open>\<open>findIndex\<close>; \<open>None\<close> stands for the result \<open>-1\<close>.\<close>

fun findIndex :: "('a \<Rightarrow> bool) \<Rightarrow> 'a list \<Rightarrow> nat option" where
  "findIndex P [] = None"
| "findIndex P (x # xs) = (if P x then Some 0 else map_option Suc (findIndex P xs))"

text \<open>
  The loop \<open>for (i = startIndex; i < lines.length; i++)\<close> that pushes the cell of one column
  onto \<open>texts\<close>; it runs over the lines from \<open>startIndex\<close> on.  \<open>values[col]\<close> is
  \<open>undefined\<close> beyond the end of \<open>values\<close>, and \<open>undefined\<close> and the empty string are both falsy.
\<close>

fun extractTexts :: "nat \<Rightarrow> string list \<Rightarrow> string list \<Rightarrow> string list" where
  "extractTexts col [] texts = texts"
| "extractTexts col (line # rest) texts =
     (if trim line \<noteq> []
      then (let values = csvCells line
            in if col < length values \<and> values ! col \<noteq> [] \<and> length (values ! col) > 0
               then extractTexts col rest (texts @ [values ! col])
               else extractTexts col rest texts)
      else extractTexts col rest texts)"

definition csvLines :: "string \<Rightarrow> string list" where
  "csvLines csvContent = filter (\<lambda>line. trim line \<noteq> []) (splitChar (CHR 0x0A) csvContent)"

record csv_batch =
  headers :: "string list"
  texts :: "string list"
  totalRows :: nat
  hasHeaders :: bool
  warning :: "string option"

definition parseCSV :: "string \<Rightarrow> error + csv_batch" where
  "parseCSV csvContent =
     (let lines = csvLines csvContent
      in if length lines = 0 then Inl CsvEmptyError
         else if length lines = 1
         then Inr \<lparr>headers = [''text''], texts = [trim (lines ! 0)], totalRows = 1,
                   hasHeaders = False, warning = None\<rparr>
         else
           let firstLine = lines ! 0;
               hasHeaderIndicators = someHeaderIndicator firstLine;
               (headers, startIndex) =
                  (if hasHeaderIndicators then (csvCells firstLine, 1) else ([''text''], 0));
               textColumnIndex = findIndex isTextHeader headers
           in case textColumnIndex of
                None \<Rightarrow>
                  (let texts = extractTexts 0 (drop startIndex lines) []
                   in Inr \<lparr>headers = headers, texts = texts, totalRows = length texts,
                           hasHeaders = hasHeaderIndicators,
                           warning = Some ''No text column found, using first column as text''\<rparr>)
              | Some col \<Rightarrow>
                  (let texts = extractTexts col (drop startIndex lines) []
                   in Inr \<lparr>headers = headers, texts = texts, totalRows = length texts,
                           hasHeaders = hasHeaderIndicators, warning = None\<rparr>))"

text \<open>
  Names for what parseCSV decides on an input with two or more non-blank lines: whether
  the first line is a header row, the header names, the column selected, the lines read
  as data, and what one data line adds to \<open>texts\<close>.
\<close>

definition headerRow :: "string \<Rightarrow> bool" where
  "headerRow csvContent = someHeaderIndicator (hd (csvLines csvContent))"

definition headerNames :: "string \<Rightarrow> string list" where
  "headerNames csvContent =
     (if headerRow csvContent then csvCells (hd (csvLines csvContent)) else [''text''])"

definition textColumn :: "string \<Rightarrow> nat" where
  "textColumn csvContent =
     (case findIndex isTextHeader (headerNames csvContent) of None \<Rightarrow> 0 | Some col \<Rightarrow> col)"

definition dataLines :: "string \<Rightarrow> string list" where
  "dataLines csvContent =
     (if headerRow csvContent then tl (csvLines csvContent) else csvLines csvContent)"

definition rowTexts :: "nat \<Rightarrow> string \<Rightarrow> string list" where
  "rowTexts col line =
     (if col < length (csvCells line) \<and> csvCells line ! col \<noteq> [] then [csvCells line ! col] else [])"

section \<open>Analysis results, the batch runner and the CSV export\<close>

text \<open>
  The object that one analyze call returns, with the fields the component reads.  A field
  that the object may lack is an option, \<open>None\<close> standing for \<open>undefined\<close>.  A number is
  kept as the text that \<open>String()\<close> gives for it (\<open>0.93\<close>, \<open>0\<close>, \<open>NaN\<close>), the only operation
  besides truthiness that the component applies to it; \<open>0\<close> and \<open>NaN\<close> are the falsy numbers.
  The fields \<open>result_text\<close>, \<open>result_sentiment\<close> and \<open>result_confidence\<close> are the source's
  \<open>text\<close>, \<open>sentiment\<close> and \<open>confidence\<close>.  Every result carries its text.
\<close>

type_synonym number_text = string

record analysis_result =
  result_text :: string
  error :: "string option"
  result_sentiment :: "string option"
  result_confidence :: "number_text option"
  model_name :: "string option"
  joy_score :: "number_text option"
  sadness_score :: "number_text option"
  anger_score :: "number_text option"
  fear_score :: "number_text option"
  formal_score :: "number_text option"
  casual_score :: "number_text option"
  emotional_score :: "number_text option"
  objective_score :: "number_text option"

text \<open>The object pushed in the \<open>catch\<close> branch of the batch loop.\<close>

definition errorResult :: "string \<Rightarrow> string \<Rightarrow> string \<Rightarrow> analysis_result" where
  "errorResult text message selectedModel =
     \<lparr>result_text = text, error = Some message, result_sentiment = Some ''ERROR'',
      result_confidence = Some ''0'', model_name = Some selectedModel,
      joy_score = None, sadness_score = None, anger_score = None, fear_score = None,
      formal_score = None, casual_score = None, emotional_score = None,
      objective_score = None\<rparr>"

text \<open>
  The state hooks of the component that handleAnalyzeCSV reads or sets; \<open>csvProgress\<close> is
  the pair \<open>(current, total)\<close>, and \<open>None\<close> stands for \<open>null\<close>.
\<close>

record app_state =
  selectedModel :: string
  analysis :: "analysis_result option"
  csvData :: "csv_batch option"
  isProcessingCsv :: bool
  csvResults :: "analysis_result list option"
  csvProgress :: "nat \<times> nat"
  currentCsvIndex :: nat

text \<open>
  \<open>apiService.analyzeSentiment(text, model)\<close> is a call to the backend: it is a parameter
  of the model, a function of the text, the model name and the state \<open>'w\<close> of the world
  outside, which returns the result or the message of the error thrown (\<open>Inl\<close>) and the
  next state of the world.
\<close>

type_synonym 'w analyze_api = "string \<Rightarrow> string \<Rightarrow> 'w \<Rightarrow> (string + analysis_result) \<times> 'w"

text \<open>
  The loop \<open>for (i = 0; i < csvData.texts.length; i++)\<close>, run over the texts from index \<open>i\<close>
  on: one call per text, awaited before the next; \<open>results.push\<close> of the result or of the
  placeholder; then the progress update.
\<close>

fun batchLoop :: "'w analyze_api \<Rightarrow> string \<Rightarrow> nat \<Rightarrow> string list \<Rightarrow> nat \<Rightarrow>
    analysis_result list \<Rightarrow> app_state \<Rightarrow> 'w \<Rightarrow> analysis_result list \<times> app_state \<times> 'w" where
  "batchLoop api model len [] i results st w = (results, st, w)"
| "batchLoop api model len (text # rest) i results st w =
     (case api text model w of
        (Inr result, w') \<Rightarrow>
          batchLoop api model len rest (i + 1) (results @ [result])
            (st\<lparr>csvProgress := (i + 1, len)\<rparr>) w'
      | (Inl message, w') \<Rightarrow>
          batchLoop api model len rest (i + 1) (results @ [errorResult text message model])
            (st\<lparr>csvProgress := (i + 1, len)\<rparr>) w')"

definition handleAnalyzeCSV :: "'w analyze_api \<Rightarrow> app_state \<Rightarrow> 'w \<Rightarrow> app_state \<times> 'w" where
  "handleAnalyzeCSV api st w =
     (case csvData st of
        None \<Rightarrow> (st, w)
      | Some d \<Rightarrow>
          if length (texts d) = 0 then (st, w)
          else
            let st1 = st\<lparr>isProcessingCsv := True\<rparr>;
                st2 = st1\<lparr>csvProgress := (0, length (texts d))\<rparr>;
                (results, st3, w') =
                   batchLoop api (selectedModel st) (length (texts d)) (texts d) 0 [] st2 w;
                st4 = st3\<lparr>csvResults := Some results\<rparr>;
                st5 = st4\<lparr>currentCsvIndex := 0\<rparr>;
                st6 = (if length results > 0 then st5\<lparr>analysis := Some (results ! 0)\<rparr> else st5);
                st7 = st6\<lparr>isProcessingCsv := False\<rparr>;
                st8 = st7\<lparr>csvProgress := (0, 0)\<rparr>
            in (st8, w'))"

text \<open>
  The outcomes of the analyze calls of one run, in order: the call for a text is made in
  the world that the calls for the texts before it have left.
\<close>

fun callOutcomes :: "'w analyze_api \<Rightarrow> string \<Rightarrow> string list \<Rightarrow> 'w \<Rightarrow> (string + analysis_result) list" where
  "callOutcomes api model [] w = []"
| "callOutcomes api model (text # rest) w =
     (case api text model w of (outcome, w') \<Rightarrow> outcome # callOutcomes api model rest w')"

text \<open>What the result list holds for a text whose call had the given outcome.\<close>

fun rowResult :: "string \<Rightarrow> string \<Rightarrow> string + analysis_result \<Rightarrow> analysis_result" where
  "rowResult model text (Inr result) = result"
| "rowResult model text (Inl message) = errorResult text message model"

text \<open>A backend on which every call fails, and the state after loading a CSV file none of
  whose rows has a text.\<close>

definition failingApi :: "unit analyze_api" where
  "failingApi text model w = (Inl ''Analysis failed'', w)"

definition emptyBatch :: csv_batch where
  "emptyBatch = \<lparr>headers = [''id'', ''text''], texts = [], totalRows = 0, hasHeaders = True,
                  warning = None\<rparr>"

definition emptyBatchState :: app_state where
  "emptyBatchState =
     \<lparr>selectedModel = ''distilbert-base-uncased-finetuned-sst-2-english'', analysis = None,
      csvData = Some emptyBatch,
      isProcessingCsv = False, csvResults = None, csvProgress = (0, 0), currentCsvIndex = 0\<rparr>"

text \<open>A backend whose second call fails (the world is the number of calls made so far),
  and the state after loading a file with three rows.\<close>

definition okResult :: "string \<Rightarrow> string \<Rightarrow> analysis_result" where
  "okResult text model =
     \<lparr>result_text = text, error = None, result_sentiment = Some ''POSITIVE'',
      result_confidence = Some ''0.98'', model_name = Some model,
      joy_score = None, sadness_score = None, anger_score = None, fear_score = None,
      formal_score = None, casual_score = None, emotional_score = None,
      objective_score = None\<rparr>"

definition secondCallFails :: "nat analyze_api" where
  "secondCallFails text model calls =
     (if calls = 1 then (Inl ''Analysis failed'', calls + 1)
      else (Inr (okResult text model), calls + 1))"

definition threeRowBatch :: csv_batch where
  "threeRowBatch = \<lparr>headers = [''text''], texts = [''apple'', ''banana'', ''cherry''],
                     totalRows = 3, hasHeaders = True, warning = None\<rparr>"

definition threeRowState :: app_state where
  "threeRowState =
     \<lparr>selectedModel = ''m'', analysis = None, csvData = Some threeRowBatch,
      isProcessingCsv = False, csvResults = None, csvProgress = (0, 0), currentCsvIndex = 0\<rparr>"

text \<open>generateResultsCSV: \<open>v || d\<close> on a string field and \<open>v || 0\<close> on a number field.\<close>

definition orString :: "string option \<Rightarrow> string \<Rightarrow> string" where
  "orString v d = (case v of None \<Rightarrow> d | Some x \<Rightarrow> if x = [] then d else x)"

definition orZero :: "number_text option \<Rightarrow> string" where
  "orZero v = (case v of None \<Rightarrow> ''0'' | Some n \<Rightarrow> if n = ''0'' \<or> n = ''NaN'' then ''0'' else n)"

definition resultHeaders :: "string list" where
  "resultHeaders = [''Text'', ''Sentiment'', ''Confidence'', ''Model'', ''Joy Score'',
     ''Sadness Score'', ''Anger Score'', ''Fear Score'', ''Formal Score'', ''Casual Score'',
     ''Emotional Score'', ''Objective Score'']"

text \<open>One element of \<open>rows\<close>, each cell already passed through \<open>String()\<close>.\<close>

definition resultRow :: "analysis_result \<Rightarrow> string list" where
  "resultRow result =
     [result_text result,
      orString (result_sentiment result) ''ERROR'',
      orZero (result_confidence result),
      orString (model_name result) ''unknown'',
      orZero (joy_score result),
      orZero (sadness_score result),
      orZero (anger_score result),
      orZero (fear_score result),
      orZero (formal_score result),
      orZero (casual_score result),
      orZero (emotional_score result),
      orZero (objective_score result)]"

text \<open>The cell between double quotes, each double quote in it doubled.\<close>

definition quoteCell :: "string \<Rightarrow> string" where
  "quoteCell cell =
     CHR 0x22 # concat (map (\<lambda>ch. if ch = CHR 0x22 then [CHR 0x22, CHR 0x22] else [ch]) cell)
       @ [CHR 0x22]"

text \<open>\<open>xs.join(c)\<close>\<close>

fun joinWith :: "char \<Rightarrow> string list \<Rightarrow> string" where
  "joinWith c [] = []"
| "joinWith c [x] = x"
| "joinWith c (x # y # ys) = x @ c # joinWith c (y # ys)"

definition csvLineOf :: "string list \<Rightarrow> string" where
  "csvLineOf row = joinWith (CHR 0x2C) (map quoteCell row)"

definition generateResultsCSV :: "analysis_result list \<Rightarrow> string" where
  "generateResultsCSV results =
     (let headers = resultHeaders;
          rows = map resultRow results
      in joinWith (CHR 0x0A) (map csvLineOf (headers # rows)))"

text \<open>A result whose text holds a comma.\<close>

definition commaResult :: analysis_result where
  "commaResult =
     \<lparr>result_text = ''good, really'', error = None, result_sentiment = Some ''POSITIVE'',
      result_confidence = Some ''0.98'', model_name = Some ''m'',
      joy_score = None, sadness_score = None, anger_score = None, fear_score = None,
      formal_score = None, casual_score = None, emotional_score = None,
      objective_score = None\<rparr>"

section \<open>Properties of the heuristic\<close>

lemma countScores_filter:
  "countScores ws (p, n) =
     (p + length (filter (\<lambda>w. w \<in> set positiveWords) ws),
      n + length (filter (\<lambda>w. w \<in> set negativeWords) ws))"
  by (induction ws arbitrary: p n) simp_all

lemma countScores_keywordCount:
  "countScores (sentimentWords t) (0, 0) = (keywordCount positiveWords t, keywordCount negativeWords t)"
  by (simp add: countScores_filter keywordCount_def)

lemma js_round_bounds:
  assumes "0 \<le> x" "x \<le> 100"
  shows "0 \<le> js_round x" "js_round x \<le> 100"
proof -
  have "(0::rat) \<le> x + 1 / 2" using assms by simp
  then show "0 \<le> js_round x" unfolding js_round_def by simp
  have "x + 1 / 2 < 101" using assms by simp
  then have "\<lfloor>x + 1 / 2\<rfloor> < 101" by (simp add: floor_less_iff)
  then show "js_round x \<le> 100" unfolding js_round_def by simp
qed

lemma share_le_100:
  fixes a b :: nat
  assumes "0 < a + b"
  shows "(of_nat a :: rat) / of_nat (a + b) * 100 \<le> 100"
    and "0 \<le> (of_nat a :: rat) / of_nat (a + b) * 100"
proof -
  have "(of_nat a :: rat) \<le> of_nat (a + b)" by (simp only: of_nat_le_iff le_add1)
  moreover have "(0::rat) < of_nat (a + b)" using assms by (simp only: of_nat_0_less_iff)
  ultimately have "(of_nat a :: rat) / of_nat (a + b) \<le> 1" by (simp only: divide_le_eq_1_pos)
  then have "(of_nat a :: rat) / of_nat (a + b) * 100 \<le> 1 * 100"
    by (rule mult_right_mono) simp
  then show "(of_nat a :: rat) / of_nat (a + b) * 100 \<le> 100" by (simp only: mult_1)
  show "0 \<le> (of_nat a :: rat) / of_nat (a + b) * 100" by (simp del: of_nat_add)
qed

lemma confidence_left:
  "max (js_round (of_nat p / of_nat (p + n) * 100)) 60 = majorityConfidence p n"
  unfolding majorityConfidence_def by (simp add: max.commute mult.commute)

lemma confidence_right:
  "max (js_round (of_nat n / of_nat (p + n) * 100)) 60 = majorityConfidence n p"
  unfolding majorityConfidence_def by (simp add: max.commute mult.commute add.commute)

lemma majorityConfidence_range:
  assumes "0 < a + b"
  shows "60 \<le> majorityConfidence a b \<and> majorityConfidence a b \<le> 100"
proof -
  have "js_round (of_nat a / of_nat (a + b) * 100) \<le> 100"
    by (rule js_round_bounds(2)[OF share_le_100(2)[OF assms] share_le_100(1)[OF assms]])
  then show ?thesis
    unfolding confidence_left[symmetric] by simp
qed

lemma analyzeSentiment_cases:
  "analyzeSentiment t =
     (let p = keywordCount positiveWords t; n = keywordCount negativeWords t
      in if p = n
         then \<lparr>label = ''NEUTRAL'', confidence = 50, method_name = ''Rule-based Analysis''\<rparr>
         else if n < p
         then \<lparr>label = ''POSITIVE'', confidence = majorityConfidence p n,
               method_name = ''Rule-based Analysis''\<rparr>
         else \<lparr>label = ''NEGATIVE'', confidence = majorityConfidence n p,
               method_name = ''Rule-based Analysis''\<rparr>)"
proof -
  define p where "p = keywordCount positiveWords t"
  define n where "n = keywordCount negativeWords t"
  have cs: "countScores (sentimentWords t) (0, 0) = (p, n)"
    by (simp only: countScores_keywordCount p_def n_def)
  consider "p = n" | "n < p" | "p < n" by linarith
  then have "analyzeSentiment t =
     (if p = n
         then \<lparr>label = ''NEUTRAL'', confidence = 50, method_name = ''Rule-based Analysis''\<rparr>
         else if n < p
         then \<lparr>label = ''POSITIVE'', confidence = majorityConfidence p n,
               method_name = ''Rule-based Analysis''\<rparr>
         else \<lparr>label = ''NEGATIVE'', confidence = majorityConfidence n p,
               method_name = ''Rule-based Analysis''\<rparr>)"
  proof cases
    case 1
    then show ?thesis unfolding analyzeSentiment_def Let_def cs by (simp add: Let_def)
  next
    case 2
    then have "analyzeSentiment t = \<lparr>label = ''POSITIVE'',
        confidence = max (js_round (of_nat p / of_nat (p + n) * 100)) 60,
        method_name = ''Rule-based Analysis''\<rparr>"
      unfolding analyzeSentiment_def Let_def cs by (simp add: Let_def del: of_nat_add)
    with 2 show ?thesis by (simp only: confidence_left) simp
  next
    case 3
    then have "analyzeSentiment t = \<lparr>label = ''NEGATIVE'',
        confidence = max (js_round (of_nat n / of_nat (p + n) * 100)) 60,
        method_name = ''Rule-based Analysis''\<rparr>"
      unfolding analyzeSentiment_def Let_def cs by (simp add: Let_def del: of_nat_add)
    with 3 show ?thesis by (simp only: confidence_right) simp
  qed
  then show ?thesis by (simp only: Let_def p_def n_def)
qed

text \<open>
  C1. For every text, with \<open>p\<close> and \<open>n\<close> the numbers of tokens of the lowercased text, split
  at runs of non-word characters, that occur in the positive and in the negative word
  list (20 words each): the heuristic returns NEUTRAL at 50 when \<open>p = n\<close> (both zero
  included), and otherwise the label of the larger side at
  \<open>max 60 (round (100 * majority / (majority + minority)))\<close>.
\<close>

theorem analyzeSentiment_majority_rule:
  "analyzeSentiment t =
     (let p = keywordCount positiveWords t; n = keywordCount negativeWords t
      in if p = n
         then \<lparr>label = ''NEUTRAL'', confidence = 50, method_name = ''Rule-based Analysis''\<rparr>
         else if n < p
         then \<lparr>label = ''POSITIVE'', confidence = majorityConfidence p n,
               method_name = ''Rule-based Analysis''\<rparr>
         else \<lparr>label = ''NEGATIVE'', confidence = majorityConfidence n p,
               method_name = ''Rule-based Analysis''\<rparr>)
   \<and> length positiveWords = 20 \<and> length negativeWords = 20"
proof -
  have "length positiveWords = 20" by (simp add: positiveWords_def)
  moreover have "length negativeWords = 20" by (simp add: negativeWords_def)
  ultimately show ?thesis using analyzeSentiment_cases[of t] by (simp only: simp_thms)
qed

theorem analyzeSentiment_majority_rule_witness:
  "analyzeSentiment ''I LOVE this, it is great; the ending is sad.'' =
     \<lparr>label = ''POSITIVE'', confidence = 67, method_name = ''Rule-based Analysis''\<rparr>"
proof -
  have p: "keywordCount positiveWords ''I LOVE this, it is great; the ending is sad.'' = 2"
    by code_simp
  have n: "keywordCount negativeWords ''I LOVE this, it is great; the ending is sad.'' = 1"
    by code_simp
  have c: "majorityConfidence 2 (Suc 0) = 67"
    by code_simp
  from analyzeSentiment_majority_rule[of "''I LOVE this, it is great; the ending is sad.''"]
  show ?thesis
    unfolding p n Let_def by (simp add: c)
qed

text \<open>
  C4. For every non-empty text the heuristic's confidence lies in \<open>[50, 100]\<close> and its label
  is POSITIVE, NEGATIVE or NEUTRAL.
\<close>

theorem analyzeSentiment_range:
  assumes "t \<noteq> []"
  shows "50 \<le> confidence (analyzeSentiment t) \<and> confidence (analyzeSentiment t) \<le> 100
         \<and> label (analyzeSentiment t) \<in> {''POSITIVE'', ''NEGATIVE'', ''NEUTRAL''}"
proof -
  define p where "p = keywordCount positiveWords t"
  define n where "n = keywordCount negativeWords t"
  have r1: "n < p \<Longrightarrow> 60 \<le> majorityConfidence p n \<and> majorityConfidence p n \<le> 100"
    by (rule majorityConfidence_range) simp
  have r2: "p < n \<Longrightarrow> 60 \<le> majorityConfidence n p \<and> majorityConfidence n p \<le> 100"
    by (rule majorityConfidence_range) simp
  consider "p = n" | "n < p" | "p < n" by linarith
  then show ?thesis
  proof cases
    case 1
    then show ?thesis
      by (simp add: analyzeSentiment_cases Let_def p_def[symmetric] n_def[symmetric])
  next
    case 2
    with r1 show ?thesis
      by (simp add: analyzeSentiment_cases Let_def p_def[symmetric] n_def[symmetric])
  next
    case 3
    with r2 show ?thesis
      by (simp add: analyzeSentiment_cases Let_def p_def[symmetric] n_def[symmetric])
  qed
qed

theorem analyzeSentiment_range_witness:
  "''I love it'' \<noteq> [] \<and> 50 \<le> confidence (analyzeSentiment ''I love it'')
   \<and> confidence (analyzeSentiment ''I love it'') \<le> 100
   \<and> label (analyzeSentiment ''I love it'') \<in> {''POSITIVE'', ''NEGATIVE'', ''NEUTRAL''}"
  using analyzeSentiment_range[of "''I love it''"] by simp

section \<open>Properties of the text statistics\<close>

text \<open>
  C9. There is a text that is not white space only (the three characters \<open>.!?\<close>) which
  passes the emptiness check of analyzeText and yet has sentenceCount 0, so that the
  division for averageWordsPerSentence has the divisor zero and the value returned is
  not a finite number.
\<close>

theorem analyzeText_zero_sentences:
  "\<exists>t r. trim t \<noteq> [] \<and> analyzeText t = Inr r \<and> sentenceCount r = 0
         \<and> \<not> isFinite (averageWordsPerSentence r)"
proof -
  define r where "r = \<lparr>wordCount = 1, characterCount = 3, characterCountNoSpaces = 3,
      sentenceCount = 0, paragraphCount = 1, averageWordsPerSentence = PosInfinity,
      sentiment = \<lparr>label = ''NEUTRAL'', confidence = 50, method_name = ''Rule-based Analysis''\<rparr>\<rparr>"
  have "analyzeText ''.!?'' = Inr r"
    unfolding r_def by code_simp
  moreover have "trim ''.!?'' \<noteq> []" by code_simp
  moreover have "sentenceCount r = 0" by (simp add: r_def)
  moreover have "\<not> isFinite (averageWordsPerSentence r)" by (simp add: r_def)
  ultimately show ?thesis by blast
qed

section \<open>Properties of the CSV sniffer\<close>

lemma concat_consHead: "concat (consHead x r) = x # concat r"
  by (cases r) simp_all

lemma splitChar_chars: "set (concat (splitChar c s)) \<subseteq> set s"
  by (induction s) (auto simp add: concat_consHead simp del: set_concat)

lemma splitChar_piece_chars: "l \<in> set (splitChar c s) \<Longrightarrow> set l \<subseteq> set s"
  using splitChar_chars[of c s] by auto

lemma trim_all_space:
  assumes "list_all isSpace l"
  shows "trim l = []"
proof -
  have "dropWhile isSpace l = []"
    using assms by (induction l) simp_all
  then show ?thesis unfolding trim_def by (simp only: rev.simps dropWhile.simps)
qed

lemma csvLines_all_space:
  assumes "list_all isSpace s"
  shows "csvLines s = []"
proof -
  have "trim l = []" if "l \<in> set (splitChar (CHR 0x0A) s)" for l
  proof (rule trim_all_space)
    show "list_all isSpace l"
      using splitChar_piece_chars[OF that] assms by (auto simp add: list_all_iff)
  qed
  then show ?thesis by (simp add: csvLines_def filter_empty_conv)
qed

lemma csvLines_nonblank: "l \<in> set (csvLines s) \<Longrightarrow> trim l \<noteq> []"
  by (simp add: csvLines_def)

lemma extractTexts_concat:
  "list_all (\<lambda>l. trim l \<noteq> []) ls \<Longrightarrow>
     extractTexts col ls acc = acc @ concat (map (rowTexts col) ls)"
  by (induction ls arbitrary: acc) (simp_all add: rowTexts_def Let_def)

lemma dataLines_nonblank: "list_all (\<lambda>l. trim l \<noteq> []) (dataLines s)"
proof -
  have "set (dataLines s) \<subseteq> set (csvLines s)"
    by (cases "csvLines s") (auto simp add: dataLines_def)
  then show ?thesis
    using csvLines_nonblank by (auto simp add: list_all_iff)
qed

lemma findIndex_None_iff: "findIndex P xs = None \<longleftrightarrow> \<not> list_ex P xs"
  by (induction xs) simp_all

lemma findIndex_Some_bound: "findIndex P xs = Some i \<Longrightarrow> i < length xs \<and> P (xs ! i)"
  by (induction xs arbitrary: i) (auto split: if_splits)

lemma parseCSV_empty: "csvLines s = [] \<Longrightarrow> parseCSV s = Inl CsvEmptyError"
  by (simp add: parseCSV_def)

lemma parseCSV_single:
  assumes "length (csvLines s) = 1"
  shows "parseCSV s = Inr \<lparr>headers = [''text''], texts = [trim (hd (csvLines s))], totalRows = 1,
                         hasHeaders = False, warning = None\<rparr>"
proof -
  have "csvLines s ! 0 = hd (csvLines s)"
    using assms by (cases "csvLines s") simp_all
  then show ?thesis using assms by (cases "csvLines s") (simp_all add: parseCSV_def Let_def)
qed

lemma parseCSV_multi:
  assumes "2 \<le> length (csvLines s)"
  shows "parseCSV s =
     Inr \<lparr>headers = headerNames s,
          texts = concat (map (rowTexts (textColumn s)) (dataLines s)),
          totalRows = length (concat (map (rowTexts (textColumn s)) (dataLines s))),
          hasHeaders = headerRow s,
          warning = (if list_ex isTextHeader (headerNames s) then None
                     else Some ''No text column found, using first column as text'')\<rparr>"
proof -
  obtain l0 l1 rest where L: "csvLines s = l0 # l1 # rest"
    using assms by (cases "csvLines s"; cases "tl (csvLines s)") auto
  have nb0: "list_all (\<lambda>l. trim l \<noteq> []) (l0 # l1 # rest)"
    using csvLines_nonblank[of _ s] by (simp add: L list_all_iff)
  then have nb1: "list_all (\<lambda>l. trim l \<noteq> []) (l1 # rest)"
    by simp
  have E0: "extractTexts col (l0 # l1 # rest) [] = concat (map (rowTexts col) (l0 # l1 # rest))"
    for col by (simp only: extractTexts_concat[OF nb0] append_Nil)
  have E1: "extractTexts col (l1 # rest) [] = concat (map (rowTexts col) (l1 # rest))"
    for col by (simp only: extractTexts_concat[OF nb1] append_Nil)
  show ?thesis
  proof (cases "someHeaderIndicator l0")
    case True
    then show ?thesis
      by (simp add: parseCSV_def Let_def L headerRow_def headerNames_def textColumn_def
            dataLines_def E1 findIndex_None_iff[symmetric]
            del: extractTexts.simps split: option.splits)
  next
    case False
    then show ?thesis
      by (simp add: parseCSV_def Let_def L headerRow_def headerNames_def textColumn_def
            dataLines_def E0 findIndex_None_iff[symmetric]
            del: extractTexts.simps split: option.splits)
  qed
qed

lemma parseCSV_cases:
  "csvLines s = [] \<or> length (csvLines s) = 1 \<or> 2 \<le> length (csvLines s)"
  by (cases "csvLines s") (auto simp add: Suc_le_eq)

lemma trim_empty_iff: "trim l = [] \<longleftrightarrow> list_all isSpace l"
proof
  assume e: "trim l = []"
  show "list_all isSpace l"
  proof (rule ccontr)
    assume "\<not> list_all isSpace l"
    then have ne: "dropWhile isSpace l \<noteq> []"
      by (simp add: list_all_iff)
    then have "\<not> isSpace (hd (dropWhile isSpace l))"
      by (rule hd_dropWhile)
    moreover have "hd (dropWhile isSpace l) \<in> set (rev (dropWhile isSpace l))"
      using ne by simp
    ultimately have "dropWhile isSpace (rev (dropWhile isSpace l)) \<noteq> []"
      by (metis dropWhile_eq_Nil_conv)
    then show False using e by (simp add: trim_def)
  qed
next
  assume "list_all isSpace l"
  then show "trim l = []" by (rule trim_all_space)
qed

lemma csvLines_empty_iff:
  "csvLines s = [] \<longleftrightarrow> list_all (list_all isSpace) (splitChar (CHR 0x0A) s)"
  by (simp add: csvLines_def filter_empty_conv trim_empty_iff list_all_iff)

lemma rowTexts_elem:
  assumes "t \<in> set (rowTexts col l)"
  shows "t \<noteq> [] \<and> CHR 0x22 \<notin> set t"
proof -
  from assms have c: "col < length (csvCells l)" and t: "t = csvCells l ! col" and ne: "t \<noteq> []"
    by (auto simp add: rowTexts_def split: if_splits)
  from c have "col < length (splitChar (CHR 0x2C) l)"
    by (simp add: csvCells_def)
  then have "csvCells l ! col = stripQuotes (trim (splitChar (CHR 0x2C) l ! col))"
    by (simp add: csvCells_def)
  then have "CHR 0x22 \<notin> set t"
    using t by (simp add: stripQuotes_def)
  with ne show ?thesis by simp
qed

lemma rowTexts_all_empty:
  "concat (map (rowTexts col) ls) = [] \<longleftrightarrow> list_all (\<lambda>line. rowTexts col line = []) ls"
  by (induction ls) simp_all

text \<open>
  C5. On the three lines \<open>text\<close>, \<open>apple\<close>, \<open>banana\<close> parseCSV returns hasHeaders = true,
  texts = [apple, banana] and totalRows = 2.
\<close>

theorem parseCSV_text_apple_banana:
  "parseCSV ''text\<newline>apple\<newline>banana'' =
     Inr \<lparr>headers = [''text''], texts = [''apple'', ''banana''], totalRows = 2,
          hasHeaders = True, warning = None\<rparr>"
  by code_simp

text \<open>
  C2 says that texts has length at least one whenever parseCSV returns.  On a header line
  followed by rows whose text cell is empty, parseCSV returns texts = [] and totalRows = 0
  and raises nothing.
\<close>

theorem parseCSV_empty_texts_counterexample:
  "parseCSV ''id,text\<newline>1,\<newline>2,\<newline>'' =
     Inr \<lparr>headers = [''id'', ''text''], texts = [], totalRows = 0, hasHeaders = True,
          warning = None\<rparr>"
  by code_simp

text \<open>
  C2, as the code has it.  parseCSV raises the "file is empty" error exactly when every
  line of the input is blank (so for the empty string and for white space only), and
  raises no other error.  When it returns, totalRows is the length of texts; texts is
  empty exactly when the input has two or more non-blank lines and no data line has a
  non-empty cell in the selected column.
\<close>

theorem parseCSV_empty_error:
  "(parseCSV s = Inl CsvEmptyError \<longleftrightarrow> list_all (list_all isSpace) (splitChar (CHR 0x0A) s))
   \<and> (list_all isSpace s \<longrightarrow> parseCSV s = Inl CsvEmptyError)
   \<and> parseCSV s \<noteq> Inl EmptyTextError
   \<and> (\<forall>b. parseCSV s = Inr b \<longrightarrow>
         totalRows b = length (texts b)
         \<and> (texts b = [] \<longleftrightarrow>
              2 \<le> length (csvLines s)
              \<and> list_all (\<lambda>line. rowTexts (textColumn s) line = []) (dataLines s)))"
proof -
  consider "csvLines s = []" | "length (csvLines s) = 1" | "2 \<le> length (csvLines s)"
    using parseCSV_cases by blast
  then have main:
    "(parseCSV s = Inl CsvEmptyError \<longleftrightarrow> csvLines s = [])
     \<and> parseCSV s \<noteq> Inl EmptyTextError
     \<and> (\<forall>b. parseCSV s = Inr b \<longrightarrow>
           totalRows b = length (texts b)
           \<and> (texts b = [] \<longleftrightarrow>
                2 \<le> length (csvLines s)
                \<and> list_all (\<lambda>line. rowTexts (textColumn s) line = []) (dataLines s)))"
  proof cases
    case 1
    then show ?thesis by (simp add: parseCSV_empty)
  next
    case 2
    then have "csvLines s \<noteq> []" by auto
    with 2 show ?thesis by (auto simp add: parseCSV_single)
  next
    case 3
    then have "csvLines s \<noteq> []" by auto
    with 3 show ?thesis
      by (auto simp add: parseCSV_multi rowTexts_all_empty simp del: concat_eq_Nil_conv)
  qed
  moreover have "list_all isSpace s \<longrightarrow> parseCSV s = Inl CsvEmptyError"
    by (simp add: csvLines_all_space parseCSV_empty)
  ultimately show ?thesis
    unfolding csvLines_empty_iff[symmetric] by blast
qed

theorem parseCSV_empty_error_witness:
  "list_all isSpace '' \<newline>  '' \<and> parseCSV '' \<newline>  '' = Inl CsvEmptyError
   \<and> (\<exists>b. parseCSV ''apple,red\<newline>banana,yellow'' = Inr b \<and> totalRows b = length (texts b)
          \<and> texts b \<noteq> [])"
proof -
  have ws: "list_all isSpace '' \<newline>  ''" by code_simp
  have e: "parseCSV '' \<newline>  '' = Inl CsvEmptyError"
    using parseCSV_empty_error[of "'' \<newline>  ''"] ws by blast
  have r: "parseCSV ''apple,red\<newline>banana,yellow'' =
      Inr \<lparr>headers = [''text''], texts = [''apple'', ''banana''], totalRows = 2,
           hasHeaders = False, warning = None\<rparr>"
    by code_simp
  have "totalRows b = length (texts b)" if "parseCSV ''apple,red\<newline>banana,yellow'' = Inr b" for b
    using parseCSV_empty_error[of "''apple,red\<newline>banana,yellow''"] that by blast
  with r ws e show ?thesis by simp
qed

text \<open>
  C6. For every input with two or more non-blank lines parseCSV succeeds, and texts is
  the concatenation, in order, of what each data line contributes: a line with no cell
  at the selected index (in particular one with fewer cells than the index) or with an
  empty cell there contributes nothing, and every other line contributes that cell.
\<close>

theorem parseCSV_skips_rows:
  assumes "2 \<le> length (csvLines s)"
  shows "(\<exists>b. parseCSV s = Inr b
            \<and> texts b = concat (map (rowTexts (textColumn s)) (dataLines s)))
         \<and> (\<forall>line. length (csvCells line) \<le> textColumn s
                    \<or> (textColumn s < length (csvCells line) \<and> csvCells line ! textColumn s = [])
               \<longrightarrow> rowTexts (textColumn s) line = [])
         \<and> (\<forall>line. textColumn s < length (csvCells line) \<and> csvCells line ! textColumn s \<noteq> []
               \<longrightarrow> rowTexts (textColumn s) line = [csvCells line ! textColumn s])"
  using assms by (auto simp add: parseCSV_multi rowTexts_def)

theorem parseCSV_skips_rows_witness:
  "2 \<le> length (csvLines ''id,text\<newline>1,hello\<newline>2\<newline>3,\<newline>4,bye'')
   \<and> (\<exists>b. parseCSV ''id,text\<newline>1,hello\<newline>2\<newline>3,\<newline>4,bye'' = Inr b
          \<and> texts b = [''hello'', ''bye''])
   \<and> rowTexts 1 ''2'' = [] \<and> rowTexts 1 ''3,'' = []"
proof -
  have l: "2 \<le> length (csvLines ''id,text\<newline>1,hello\<newline>2\<newline>3,\<newline>4,bye'')"
    by code_simp
  have c: "concat (map (rowTexts (textColumn ''id,text\<newline>1,hello\<newline>2\<newline>3,\<newline>4,bye''))
                   (dataLines ''id,text\<newline>1,hello\<newline>2\<newline>3,\<newline>4,bye'')) = [''hello'', ''bye'']"
    by code_simp
  have r: "rowTexts 1 ''2'' = [] \<and> rowTexts 1 ''3,'' = []"
    by code_simp
  from parseCSV_skips_rows[OF l] c r l show ?thesis by simp
qed

text \<open>
  C7 says that a first row without any recognized keyword, whose header names match no
  keyword either, gets column 0 and a non-empty warning.  On such an input parseCSV takes
  the branch without headers: the first line is data, and there is no warning.
\<close>

theorem parseCSV_no_keyword_counterexample:
  "\<not> someHeaderIndicator ''name,age'' \<and> \<not> list_ex isTextHeader (csvCells ''name,age'')
   \<and> parseCSV ''name,age\<newline>bob,3'' =
       Inr \<lparr>headers = [''text''], texts = [''name'', ''bob''], totalRows = 2,
            hasHeaders = False, warning = None\<rparr>"
  by code_simp

text \<open>
  C7, as the code has it.  For every input with two or more non-blank lines: when the
  first line contains a header keyword as a substring (case-insensitively) but no header
  name equals a keyword, parseCSV reads the first line as headers, selects column 0 for
  the remaining lines and returns a non-empty warning; when the first line contains no
  header keyword at all, parseCSV reads every line as data, selects column 0 and returns
  no warning.
\<close>

theorem parseCSV_warning:
  assumes "2 \<le> length (csvLines s)"
  shows "(someHeaderIndicator (hd (csvLines s))
            \<and> \<not> list_ex isTextHeader (csvCells (hd (csvLines s)))
          \<longrightarrow> (\<exists>b w. parseCSV s = Inr b \<and> warning b = Some w \<and> w \<noteq> [] \<and> hasHeaders b
                    \<and> headers b = csvCells (hd (csvLines s))
                    \<and> texts b = concat (map (rowTexts 0) (tl (csvLines s)))))
         \<and> (\<not> someHeaderIndicator (hd (csvLines s))
          \<longrightarrow> (\<exists>b. parseCSV s = Inr b \<and> warning b = None \<and> \<not> hasHeaders b
                    \<and> headers b = [''text'']
                    \<and> texts b = concat (map (rowTexts 0) (csvLines s))))"
proof -
  have t: "isTextHeader ''text''" by code_simp
  have "textColumn s = 0"
    if "someHeaderIndicator (hd (csvLines s))" "\<not> list_ex isTextHeader (csvCells (hd (csvLines s)))"
    using that by (simp add: textColumn_def headerNames_def headerRow_def findIndex_None_iff[symmetric])
  moreover have "textColumn s = 0" if "\<not> someHeaderIndicator (hd (csvLines s))"
    using that t by (simp add: textColumn_def headerNames_def headerRow_def)
  ultimately show ?thesis
    using assms t by (auto simp add: parseCSV_multi headerNames_def headerRow_def dataLines_def)
qed

theorem parseCSV_warning_witness:
  "2 \<le> length (csvLines ''my_text_col,other\<newline>hello,1'')
   \<and> someHeaderIndicator (hd (csvLines ''my_text_col,other\<newline>hello,1''))
   \<and> \<not> list_ex isTextHeader (csvCells (hd (csvLines ''my_text_col,other\<newline>hello,1'')))
   \<and> (\<exists>b w. parseCSV ''my_text_col,other\<newline>hello,1'' = Inr b \<and> warning b = Some w \<and> w \<noteq> []
            \<and> texts b = [''hello''])
   \<and> \<not> someHeaderIndicator (hd (csvLines ''name,age\<newline>bob,3''))
   \<and> (\<exists>b. parseCSV ''name,age\<newline>bob,3'' = Inr b \<and> warning b = None)"
proof -
  have l: "2 \<le> length (csvLines ''my_text_col,other\<newline>hello,1'')" by code_simp
  have h: "someHeaderIndicator (hd (csvLines ''my_text_col,other\<newline>hello,1''))" by code_simp
  have n: "\<not> list_ex isTextHeader (csvCells (hd (csvLines ''my_text_col,other\<newline>hello,1'')))"
    by code_simp
  have c: "concat (map (rowTexts 0) (tl (csvLines ''my_text_col,other\<newline>hello,1''))) = [''hello'']"
    by code_simp
  have l2: "2 \<le> length (csvLines ''name,age\<newline>bob,3'')" by code_simp
  have h2: "\<not> someHeaderIndicator (hd (csvLines ''name,age\<newline>bob,3''))" by code_simp
  from parseCSV_warning[OF l] h n c
  have 1: "\<exists>b w. parseCSV ''my_text_col,other\<newline>hello,1'' = Inr b \<and> warning b = Some w \<and> w \<noteq> []
            \<and> texts b = [''hello'']"
    by auto
  from parseCSV_warning[OF l2] h2
  have 2: "\<exists>b. parseCSV ''name,age\<newline>bob,3'' = Inr b \<and> warning b = None"
    by auto
  from l h n 1 h2 2 show ?thesis by blast
qed

text \<open>
  C10 says that no element of texts contains a double quote.  On an input of one line,
  here the word hi between double quotes, parseCSV returns the trimmed line as it is.
\<close>

theorem parseCSV_single_line_quotes_counterexample:
  "parseCSV (CHR 0x22 # ''hi'' @ [CHR 0x22]) =
     Inr \<lparr>headers = [''text''], texts = [CHR 0x22 # ''hi'' @ [CHR 0x22]], totalRows = 1,
          hasHeaders = False, warning = None\<rparr>
   \<and> CHR 0x22 \<in> set (CHR 0x22 # ''hi'' @ [CHR 0x22])"
  by code_simp

text \<open>
  C10, as the code has it.  Whenever parseCSV returns, every element of texts is a
  non-empty string.  When the input has two or more non-blank lines, no element contains
  a double quote.  When the input has exactly one non-blank line, texts holds that line,
  trimmed and otherwise unchanged, double quotes included.
\<close>

theorem parseCSV_texts_elements:
  assumes "parseCSV s = Inr b"
  shows "list_all (\<lambda>t. t \<noteq> []) (texts b)
         \<and> (2 \<le> length (csvLines s) \<longrightarrow> list_all (\<lambda>t. CHR 0x22 \<notin> set t) (texts b))
         \<and> (length (csvLines s) = 1 \<longrightarrow> texts b = [trim (hd (csvLines s))])"
proof -
  consider "csvLines s = []" | "length (csvLines s) = 1" | "2 \<le> length (csvLines s)"
    using parseCSV_cases by blast
  then show ?thesis
  proof cases
    case 1
    then show ?thesis using assms by (simp add: parseCSV_empty)
  next
    case 2
    then have "hd (csvLines s) \<in> set (csvLines s)"
      by (cases "csvLines s") simp_all
    then have "trim (hd (csvLines s)) \<noteq> []"
      by (rule csvLines_nonblank)
    with 2 assms show ?thesis by (auto simp add: parseCSV_single)
  next
    case 3
    have "texts b = concat (map (rowTexts (textColumn s)) (dataLines s))"
      using assms parseCSV_multi[OF 3] by auto
    then have "t \<noteq> [] \<and> CHR 0x22 \<notin> set t" if "t \<in> set (texts b)" for t
      using that rowTexts_elem by auto
    with 3 show ?thesis by (auto simp add: list_all_iff)
  qed
qed

theorem parseCSV_texts_elements_witness:
  "parseCSV ''id,text\<newline>1,hello\<newline>2\<newline>3,\<newline>4,bye'' =
      Inr \<lparr>headers = [''id'', ''text''], texts = [''hello'', ''bye''], totalRows = 2,
           hasHeaders = True, warning = None\<rparr>
   \<and> 2 \<le> length (csvLines ''id,text\<newline>1,hello\<newline>2\<newline>3,\<newline>4,bye'')
   \<and> list_all (\<lambda>t. t \<noteq> [] \<and> CHR 0x22 \<notin> set t) [''hello'', ''bye'']"
proof -
  have p: "parseCSV ''id,text\<newline>1,hello\<newline>2\<newline>3,\<newline>4,bye'' =
      Inr \<lparr>headers = [''id'', ''text''], texts = [''hello'', ''bye''], totalRows = 2,
           hasHeaders = True, warning = None\<rparr>"
    by code_simp
  have l: "2 \<le> length (csvLines ''id,text\<newline>1,hello\<newline>2\<newline>3,\<newline>4,bye'')"
    by code_simp
  from parseCSV_texts_elements[OF p] l p show ?thesis by simp
qed

section \<open>Properties of the batch runner\<close>

lemma callOutcomes_length: "length (callOutcomes api model ts w) = length ts"
  by (induction ts arbitrary: w) (simp_all split: prod.splits)

lemma batchLoop_results:
  "fst (batchLoop api model len ts i acc st w) =
     acc @ map2 (rowResult model) ts (callOutcomes api model ts w)"
proof (induction ts arbitrary: i acc st w)
  case Nil
  show ?case by simp
next
  case (Cons t ts)
  obtain outcome w' where a: "api t model w = (outcome, w')"
    by (cases "api t model w")
  show ?case
    by (cases outcome) (simp_all add: a Cons.IH)
qed

lemma handleAnalyzeCSV_results:
  assumes "csvData st = Some d" and "texts d \<noteq> []"
  shows "csvResults (fst (handleAnalyzeCSV api st w)) =
           Some (map2 (rowResult (selectedModel st)) (texts d)
                   (callOutcomes api (selectedModel st) (texts d) w))"
proof -
  obtain rs st3 w' where b:
    "batchLoop api (selectedModel st) (length (texts d)) (texts d) 0 []
       (st\<lparr>isProcessingCsv := True, csvProgress := (0, length (texts d))\<rparr>) w = (rs, st3, w')"
    by (metis prod_cases3)
  have "rs = map2 (rowResult (selectedModel st)) (texts d)
               (callOutcomes api (selectedModel st) (texts d) w)"
    using batchLoop_results[of api "selectedModel st" "length (texts d)" "texts d" 0 "[]"
        "st\<lparr>isProcessingCsv := True, csvProgress := (0, length (texts d))\<rparr>" w]
    by (simp add: b)
  then show ?thesis
    using assms by (simp add: handleAnalyzeCSV_def Let_def b)
qed

lemma handleAnalyzeCSV_guard:
  assumes "csvData st = None \<or> (\<exists>d. csvData st = Some d \<and> texts d = [])"
  shows "handleAnalyzeCSV api st w = (st, w)"
  using assms by (auto simp add: handleAnalyzeCSV_def)

text \<open>
  C3 says that the runner produces a result list of length N for every list of N texts.
  For a loaded batch without texts (N = 0) handleAnalyzeCSV returns at its guard: no
  result list is stored, and csvResults keeps the value \<open>null\<close> it had.
\<close>

theorem handleAnalyzeCSV_no_texts_counterexample:
  "csvData emptyBatchState = Some emptyBatch \<and> length (texts emptyBatch) = 0
   \<and> csvResults (fst (handleAnalyzeCSV failingApi emptyBatchState ())) = None"
  by (simp add: emptyBatchState_def emptyBatch_def handleAnalyzeCSV_def)

text \<open>
  C3, as the code has it.  For every loaded batch with a non-empty list of N texts, the
  batch runner stores a result list of length N, in the order of the texts: position k
  holds the result of the analyze call for text k when that call succeeds, and when it
  fails the placeholder with the text, sentiment ERROR, confidence 0 and the error
  message; a failed call stops nothing.  For every loaded batch with no texts (N = 0),
  whatever the state and the backend, the runner returns at its guard: it makes no
  call and leaves the whole state as it was, so it stores no result list.
\<close>

theorem handleAnalyzeCSV_rows:
  assumes "csvData st = Some d"
  shows "(texts d \<noteq> [] \<longrightarrow>
           (\<exists>rs. csvResults (fst (handleAnalyzeCSV api st w)) = Some rs
              \<and> length rs = length (texts d)
              \<and> (\<forall>k result. k < length (texts d)
                     \<and> callOutcomes api (selectedModel st) (texts d) w ! k = Inr result
                   \<longrightarrow> rs ! k = result)
              \<and> (\<forall>k message. k < length (texts d)
                     \<and> callOutcomes api (selectedModel st) (texts d) w ! k = Inl message
                   \<longrightarrow> rs ! k = errorResult (texts d ! k) message (selectedModel st)
                       \<and> result_text (rs ! k) = texts d ! k
                       \<and> result_sentiment (rs ! k) = Some ''ERROR''
                       \<and> result_confidence (rs ! k) = Some ''0''
                       \<and> error (rs ! k) = Some message)))
         \<and> (texts d = [] \<longrightarrow>
               handleAnalyzeCSV api st w = (st, w)
               \<and> csvResults (fst (handleAnalyzeCSV api st w)) = csvResults st)"
proof (rule conjI; rule impI)
  assume "texts d = []"
  with assms have g: "handleAnalyzeCSV api st w = (st, w)"
    by (intro handleAnalyzeCSV_guard) simp
  then show "handleAnalyzeCSV api st w = (st, w)
      \<and> csvResults (fst (handleAnalyzeCSV api st w)) = csvResults st"
    by simp
next
  assume ne: "texts d \<noteq> []"
  define os where "os = callOutcomes api (selectedModel st) (texts d) w"
  define rs where "rs = map2 (rowResult (selectedModel st)) (texts d) os"
  have len: "length os = length (texts d)"
    by (simp add: os_def callOutcomes_length)
  have nth: "rs ! k = rowResult (selectedModel st) (texts d ! k) (os ! k)"
    if "k < length (texts d)" for k
    using that len by (simp add: rs_def)
  have "csvResults (fst (handleAnalyzeCSV api st w)) = Some rs"
    unfolding rs_def os_def by (rule handleAnalyzeCSV_results[OF assms ne])
  moreover have "length rs = length (texts d)"
    by (simp add: rs_def len)
  moreover have "rs ! k = result" if "k < length (texts d)" "os ! k = Inr result" for k result
    using that nth by simp
  moreover have "rs ! k = errorResult (texts d ! k) message (selectedModel st)
      \<and> result_text (rs ! k) = texts d ! k
      \<and> result_sentiment (rs ! k) = Some ''ERROR''
      \<and> result_confidence (rs ! k) = Some ''0''
      \<and> error (rs ! k) = Some message"
    if "k < length (texts d)" "os ! k = Inl message" for k message
    using that nth by (simp add: errorResult_def)
  ultimately show "\<exists>rs. csvResults (fst (handleAnalyzeCSV api st w)) = Some rs
      \<and> length rs = length (texts d)
      \<and> (\<forall>k result. k < length (texts d)
             \<and> callOutcomes api (selectedModel st) (texts d) w ! k = Inr result
           \<longrightarrow> rs ! k = result)
      \<and> (\<forall>k message. k < length (texts d)
             \<and> callOutcomes api (selectedModel st) (texts d) w ! k = Inl message
           \<longrightarrow> rs ! k = errorResult (texts d ! k) message (selectedModel st)
               \<and> result_text (rs ! k) = texts d ! k
               \<and> result_sentiment (rs ! k) = Some ''ERROR''
               \<and> result_confidence (rs ! k) = Some ''0''
               \<and> error (rs ! k) = Some message)"
    unfolding os_def[symmetric] by blast
qed

theorem handleAnalyzeCSV_rows_witness:
  "csvData threeRowState = Some threeRowBatch \<and> texts threeRowBatch \<noteq> []
   \<and> callOutcomes secondCallFails (selectedModel threeRowState) (texts threeRowBatch) 0 ! 1
       = Inl ''Analysis failed''
   \<and> (\<exists>rs. csvResults (fst (handleAnalyzeCSV secondCallFails threeRowState 0)) = Some rs
          \<and> length rs = 3
          \<and> rs ! 0 = okResult ''apple'' ''m''
          \<and> rs ! 1 = errorResult ''banana'' ''Analysis failed'' ''m''
          \<and> result_sentiment (rs ! 1) = Some ''ERROR''
          \<and> rs ! 2 = okResult ''cherry'' ''m'')
   \<and> csvData emptyBatchState = Some emptyBatch \<and> texts emptyBatch = []
   \<and> handleAnalyzeCSV failingApi emptyBatchState () = (emptyBatchState, ())"
proof -
  have d0: "csvData emptyBatchState = Some emptyBatch"
    by (simp add: emptyBatchState_def)
  have t0: "texts emptyBatch = []"
    by (simp add: emptyBatch_def)
  have g0: "handleAnalyzeCSV failingApi emptyBatchState () = (emptyBatchState, ())"
    using handleAnalyzeCSV_rows[OF d0, of failingApi "()"] t0 by blast
  have d: "csvData threeRowState = Some threeRowBatch"
    by (simp add: threeRowState_def)
  have t: "texts threeRowBatch \<noteq> []"
    by (simp add: threeRowBatch_def)
  have o: "callOutcomes secondCallFails (selectedModel threeRowState) (texts threeRowBatch) 0 =
      [Inr (okResult ''apple'' ''m''), Inl ''Analysis failed'', Inr (okResult ''cherry'' ''m'')]"
    by (simp add: threeRowState_def threeRowBatch_def secondCallFails_def)
  have m: "selectedModel threeRowState = ''m''"
    by (simp add: threeRowState_def)
  have x: "texts threeRowBatch = [''apple'', ''banana'', ''cherry'']"
    by (simp add: threeRowBatch_def)
  from handleAnalyzeCSV_rows[OF d, of secondCallFails 0] t
  obtain rs where rs: "csvResults (fst (handleAnalyzeCSV secondCallFails threeRowState 0)) = Some rs"
    "length rs = length (texts threeRowBatch)"
    "\<And>k result. k < length (texts threeRowBatch) \<Longrightarrow>
        callOutcomes secondCallFails (selectedModel threeRowState) (texts threeRowBatch) 0 ! k
          = Inr result \<Longrightarrow> rs ! k = result"
    "\<And>k message. k < length (texts threeRowBatch) \<Longrightarrow>
        callOutcomes secondCallFails (selectedModel threeRowState) (texts threeRowBatch) 0 ! k
          = Inl message \<Longrightarrow>
        rs ! k = errorResult (texts threeRowBatch ! k) message (selectedModel threeRowState)
        \<and> result_sentiment (rs ! k) = Some ''ERROR''"
    by blast
  note ok = rs(3)[unfolded o]
  note failed = rs(4)[unfolded o]
  have "rs ! 0 = okResult ''apple'' ''m''"
    using ok[of 0 "okResult ''apple'' ''m''"] by (simp add: x)
  moreover have "rs ! 2 = okResult ''cherry'' ''m''"
    using ok[of 2 "okResult ''cherry'' ''m''"] by (simp add: x)
  moreover have "rs ! 1 = errorResult ''banana'' ''Analysis failed'' ''m''
      \<and> result_sentiment (rs ! 1) = Some ''ERROR''"
    using failed[of 1 "''Analysis failed''"] by (simp add: x m errorResult_def)
  moreover have "length rs = 3"
    using rs(2) by (simp add: x)
  ultimately show ?thesis
    using d t rs(1) o d0 t0 g0 by (simp add: errorResult_def)
qed

section \<open>Properties of the CSV export\<close>

lemma splitChar_append_sep:
  "c \<notin> set x \<Longrightarrow> splitChar c (x @ c # rest) = x # splitChar c rest"
  by (induction x) auto

lemma splitChar_no_sep: "c \<notin> set x \<Longrightarrow> splitChar c x = [x]"
  by (induction x) auto

lemma splitChar_joinWith:
  "xs \<noteq> [] \<Longrightarrow> list_all (\<lambda>x. c \<notin> set x) xs \<Longrightarrow> splitChar c (joinWith c xs) = xs"
  by (induction c xs rule: joinWith.induct) (simp_all add: splitChar_append_sep splitChar_no_sep)

lemma quoteCell_chars: "set (quoteCell cell) = insert (CHR 0x22) (set cell)"
  by (auto simp add: quoteCell_def split: if_splits)

lemma joinWith_chars: "set (joinWith c xs) \<subseteq> insert c (\<Union> (set ` set xs))"
  by (induction c xs rule: joinWith.induct) auto

lemma csvLineOf_no_newline:
  assumes "list_all (\<lambda>cell. CHR 0x0A \<notin> set cell) row"
  shows "CHR 0x0A \<notin> set (csvLineOf row)"
proof
  assume "CHR 0x0A \<in> set (csvLineOf row)"
  then have "CHR 0x0A \<in> insert (CHR 0x2C) (\<Union> (set ` set (map quoteCell row)))"
    using joinWith_chars[of "CHR 0x2C" "map quoteCell row"] by (auto simp add: csvLineOf_def)
  then obtain cell where "cell \<in> set row" "CHR 0x0A \<in> set (quoteCell cell)"
    by auto
  then show False
    using assms by (auto simp add: quoteCell_chars list_all_iff)
qed

lemma csvLineOf_Cons:
  "csvLineOf (c0 # c1 # cs) = quoteCell c0 @ CHR 0x2C # csvLineOf (c1 # cs)"
  by (simp add: csvLineOf_def)

lemma csvLineOf_nonblank:
  assumes "row \<noteq> []"
  shows "trim (csvLineOf row) \<noteq> []"
proof -
  obtain rest where "csvLineOf row = CHR 0x22 # rest"
    using assms by (cases row; cases "tl row") (auto simp add: csvLineOf_def quoteCell_def)
  moreover have "\<not> isSpace (CHR 0x22)"
    by (simp add: isSpace_def)
  ultimately show ?thesis
    by (simp add: trim_empty_iff)
qed

lemma trim_quoteCell: "trim (quoteCell cell) = quoteCell cell"
  by (simp add: trim_def quoteCell_def isSpace_def)

lemma stripQuotes_quoteCell: "stripQuotes (quoteCell cell) = stripQuotes cell"
proof -
  have "filter (\<lambda>c. c \<noteq> CHR 0x22)
          (concat (map (\<lambda>ch. if ch = CHR 0x22 then [CHR 0x22, CHR 0x22] else [ch]) cell))
        = filter (\<lambda>c. c \<noteq> CHR 0x22) cell"
    by (induction cell) simp_all
  then show ?thesis
    by (simp add: stripQuotes_def quoteCell_def)
qed

lemma rowTexts_csvLineOf:
  assumes "CHR 0x2C \<notin> set text" and "stripQuotes text \<noteq> []"
  shows "rowTexts 0 (csvLineOf (text # c1 # cs)) = [stripQuotes text]"
proof -
  have "CHR 0x2C \<notin> set (quoteCell text)"
    using assms(1) by (simp add: quoteCell_chars)
  then have "splitChar (CHR 0x2C) (csvLineOf (text # c1 # cs))
      = quoteCell text # splitChar (CHR 0x2C) (csvLineOf (c1 # cs))"
    unfolding csvLineOf_Cons by (rule splitChar_append_sep)
  then have "csvCells (csvLineOf (text # c1 # cs))
      = stripQuotes text # csvCells (csvLineOf (c1 # cs))"
    by (simp add: csvCells_def trim_quoteCell stripQuotes_quoteCell)
  then show ?thesis
    using assms(2) by (simp add: rowTexts_def)
qed

lemma rowTexts_resultRow:
  assumes "CHR 0x2C \<notin> set (result_text r)" and "stripQuotes (result_text r) \<noteq> []"
  shows "rowTexts 0 (csvLineOf (resultRow r)) = [stripQuotes (result_text r)]"
  unfolding resultRow_def by (rule rowTexts_csvLineOf[OF assms])

lemma resultHeaders_line:
  "someHeaderIndicator (csvLineOf resultHeaders)"
  "csvCells (csvLineOf resultHeaders) = resultHeaders"
  "findIndex isTextHeader resultHeaders = Some 0"
  "CHR 0x0A \<notin> set (csvLineOf resultHeaders)"
  by code_simp+

lemma csvLines_generateResultsCSV:
  assumes "list_all (\<lambda>r. list_all (\<lambda>cell. CHR 0x0A \<notin> set cell) (resultRow r)) results"
  shows "csvLines (generateResultsCSV results)
           = csvLineOf resultHeaders # map (\<lambda>r. csvLineOf (resultRow r)) results"
proof -
  define ls where "ls = csvLineOf resultHeaders # map (\<lambda>r. csvLineOf (resultRow r)) results"
  have g: "generateResultsCSV results = joinWith (CHR 0x0A) ls"
    by (simp add: generateResultsCSV_def ls_def comp_def)
  have "list_all (\<lambda>l. CHR 0x0A \<notin> set l) ls"
    using assms resultHeaders_line(4) by (simp add: ls_def list_all_iff csvLineOf_no_newline)
  moreover have "ls \<noteq> []" by (simp add: ls_def)
  ultimately have "splitChar (CHR 0x0A) (joinWith (CHR 0x0A) ls) = ls"
    by (simp add: splitChar_joinWith)
  moreover have "list_all (\<lambda>l. trim l \<noteq> []) ls"
    by (simp add: ls_def list_all_iff csvLineOf_nonblank resultHeaders_def resultRow_def)
  ultimately show ?thesis
    unfolding ls_def[symmetric] g csvLines_def by (simp add: list_all_iff)
qed

lemma concat_singletons: "concat (map (\<lambda>r. [f r]) rs) = map f rs"
  by (induction rs) simp_all

lemma parseCSV_generateResultsCSV:
  assumes "results \<noteq> []"
    and "list_all (\<lambda>r. CHR 0x2C \<notin> set (result_text r) \<and> stripQuotes (result_text r) \<noteq> []) results"
    and "list_all (\<lambda>r. list_all (\<lambda>cell. CHR 0x0A \<notin> set cell) (resultRow r)) results"
  shows "parseCSV (generateResultsCSV results) =
     Inr \<lparr>headers = resultHeaders, texts = map (\<lambda>r. stripQuotes (result_text r)) results,
          totalRows = length results, hasHeaders = True, warning = None\<rparr>"
proof -
  define s where "s = generateResultsCSV results"
  have L: "csvLines s = csvLineOf resultHeaders # map (\<lambda>r. csvLineOf (resultRow r)) results"
    unfolding s_def by (rule csvLines_generateResultsCSV[OF assms(3)])
  have two: "2 \<le> length (csvLines s)"
    using assms(1) by (cases results) (simp_all add: L)
  have hr: "headerRow s"
    by (simp add: headerRow_def L resultHeaders_line(1))
  have hn: "headerNames s = resultHeaders"
    by (simp add: headerNames_def hr L resultHeaders_line(2))
  have ex: "list_ex isTextHeader resultHeaders"
    using resultHeaders_line(3) findIndex_None_iff[of isTextHeader resultHeaders] by simp
  have tc: "textColumn s = 0"
    by (simp add: textColumn_def hn resultHeaders_line(3))
  have dl: "dataLines s = map (\<lambda>r. csvLineOf (resultRow r)) results"
    by (simp add: dataLines_def hr L)
  have "map (rowTexts 0) (dataLines s) = map (\<lambda>r. [stripQuotes (result_text r)]) results"
    unfolding dl using assms(2) by (simp add: list_all_iff rowTexts_resultRow)
  then have tx: "concat (map (rowTexts 0) (dataLines s))
      = map (\<lambda>r. stripQuotes (result_text r)) results"
    by (simp only: concat_singletons)
  show ?thesis
    unfolding s_def[symmetric] parseCSV_multi[OF two] by (simp add: hr hn ex tc tx)
qed

text \<open>
  C8 says that exporting and parsing again recovers every text.  A text with a comma
  does not come back: parseCSV splits each line at every comma, inside double quotes
  too, and keeps the part before the first one.
\<close>

theorem roundtrip_comma_counterexample:
  "parseCSV (generateResultsCSV [commaResult]) =
     Inr \<lparr>headers = resultHeaders, texts = [''good''], totalRows = 1, hasHeaders = True,
          warning = None\<rparr>
   \<and> map result_text [commaResult] = [''good, really'']"
  by code_simp

text \<open>
  C8, as the code has it.  For every non-empty list of results in which no cell of a row
  holds a line feed and every text is free of commas and has a character other than a
  double quote, parsing the exported CSV recovers the texts in order, each with its
  double quotes removed; texts without double quotes come back unchanged.
\<close>

theorem roundtrip_texts:
  assumes "results \<noteq> []"
    and "list_all (\<lambda>r. CHR 0x2C \<notin> set (result_text r) \<and> stripQuotes (result_text r) \<noteq> []) results"
    and "list_all (\<lambda>r. list_all (\<lambda>cell. CHR 0x0A \<notin> set cell) (resultRow r)) results"
  shows "\<exists>b. parseCSV (generateResultsCSV results) = Inr b
           \<and> texts b = map (\<lambda>r. stripQuotes (result_text r)) results
           \<and> (list_all (\<lambda>r. CHR 0x22 \<notin> set (result_text r)) results
                \<longrightarrow> texts b = map result_text results)"
proof -
  have "map (\<lambda>r. stripQuotes (result_text r)) results = map result_text results"
    if "list_all (\<lambda>r. CHR 0x22 \<notin> set (result_text r)) results"
    using that by (auto simp add: list_all_iff stripQuotes_def filter_id_conv)
  then show ?thesis
    by (simp add: parseCSV_generateResultsCSV[OF assms])
qed

theorem roundtrip_texts_witness:
  "[okResult ''apple pie'' ''m'', errorResult ''banana'' ''Analysis failed'' ''m''] \<noteq> []
   \<and> (\<exists>b. parseCSV (generateResultsCSV
              [okResult ''apple pie'' ''m'', errorResult ''banana'' ''Analysis failed'' ''m'']) = Inr b
          \<and> texts b = [''apple pie'', ''banana''])"
proof -
  define rs where "rs = [okResult ''apple pie'' ''m'', errorResult ''banana'' ''Analysis failed'' ''m'']"
  have a: "rs \<noteq> []" by (simp add: rs_def)
  have b: "list_all (\<lambda>r. CHR 0x2C \<notin> set (result_text r) \<and> stripQuotes (result_text r) \<noteq> []) rs"
    unfolding rs_def by code_simp
  have c: "list_all (\<lambda>r. list_all (\<lambda>cell. CHR 0x0A \<notin> set cell) (resultRow r)) rs"
    unfolding rs_def by code_simp
  have q: "list_all (\<lambda>r. CHR 0x22 \<notin> set (result_text r)) rs"
    unfolding rs_def by code_simp
  have t: "map result_text rs = [''apple pie'', ''banana'']"
    by (simp add: rs_def okResult_def errorResult_def)
  from roundtrip_texts[OF a b c] q t
  have "\<exists>b. parseCSV (generateResultsCSV rs) = Inr b \<and> texts b = [''apple pie'', ''banana'']"
    by auto
  then show ?thesis
    unfolding rs_def by simp
qed

end
